theory Spec2Isabelle
  imports Main "HOL-Library.AList"
begin

section \<open>Python values, dictionaries and paths\<close>

text \<open>
  The values that travel through the signals of the program: \<open>None\<close>, strings,
  \<open>pathlib.Path\<close> objects, lists, and the callables of the DataLad API (a callable
  is named by the attribute it was looked up under). A \<open>dict\<close> is an association
  list; \<open>d.get(k)\<close> yields \<open>None\<close> for a missing key.
\<close>

type_synonym path = "string list"

datatype pyval =
    PNone
  | PStr string
  | PPath path
  | PList "pyval list"
  | PFunctor string

type_synonym pydict = "(string \<times> pyval) list"

datatype pyerror =
    ValueError
  | TypeError
  | KeyError
  | AttributeError
  | NotImplementedError
  | BackendError string

definition dict_get :: "pydict \<Rightarrow> string \<Rightarrow> pyval" where
  "dict_get d k = (case map_of d k of None \<Rightarrow> PNone | Some v \<Rightarrow> v)"

definition dict_has :: "pydict \<Rightarrow> string \<Rightarrow> bool" where
  "dict_has d k = (map_of d k \<noteq> None)"

definition dict_set :: "pydict \<Rightarrow> string \<Rightarrow> pyval \<Rightarrow> pydict" where
  "dict_set d k v = AList.update k v d"

text \<open>Python truthiness, as \<open>if state:\<close> tests it.\<close>

fun truthy :: "pyval \<Rightarrow> bool" where
  "truthy PNone = False"
| "truthy (PStr s) = (s \<noteq> [])"
| "truthy (PPath p) = True"
| "truthy (PList xs) = (xs \<noteq> [])"
| "truthy (PFunctor f) = True"

text \<open>
  A \<open>pathlib.Path\<close> is the tuple of its \<open>parts\<close>: \<open>/ds/a.txt\<close> is
  \<open>[''/'', ''ds'', ''a.txt'']\<close>. \<open>Path\<close> parses a POSIX path string (empty and
  \<open>.\<close> components are dropped, exactly two leading slashes are a root of their own),
  \<open>path_str\<close> is \<open>str(path)\<close>, \<open>path_name\<close> is \<open>path.name\<close>, and
  \<open>relative_to\<close> raises \<open>ValueError\<close> unless the other path is a prefix.
\<close>

fun split_slash :: "string \<Rightarrow> string \<Rightarrow> string list" where
  "split_slash cur [] = [rev cur]"
| "split_slash cur (c # cs) =
     (if c = CHR ''/'' then rev cur # split_slash [] cs else split_slash (c # cur) cs)"

definition path_root :: "string \<Rightarrow> string" where
  "path_root s =
     (if take 1 s \<noteq> ''/'' then []
      else if take 2 s = ''//'' \<and> take 3 s \<noteq> ''///'' then ''//''
      else ''/'')"

definition Path :: "string \<Rightarrow> path" where
  "Path s =
     (let segs = filter (\<lambda>p. p \<noteq> [] \<and> p \<noteq> ''.'') (split_slash [] s)
      in if path_root s = [] then segs else path_root s # segs)"

definition is_root_part :: "string \<Rightarrow> bool" where
  "is_root_part p = (p = ''/'' \<or> p = ''//'')"



definition path_name :: "path \<Rightarrow> string" where
  "path_name parts =
     (case parts of
        [] \<Rightarrow> []
      | p # ps \<Rightarrow> if ps = [] \<and> is_root_part p then [] else last (p # ps))"

definition relative_to :: "path \<Rightarrow> path \<Rightarrow> pyerror + path" where
  "relative_to p other =
     (if take (length other) p = other then Inr (drop (length other) p) else Inl ValueError)"

section \<open>The command executor (\<open>datalad_cmd.py\<close>)\<close>

text \<open>
  The three signals of \<open>GooeyDataladCmdExec\<close>. The second argument of the two
  execution signals is whatever value the code passes in the command-name slot.
\<close>

datatype cmd_signal =
    ExecutionStarted string pyval "pyval list" pydict
  | ExecutionFinished string pyval "pyval list" pydict
  | ResultReceived pydict

text \<open>
  A call of a DataLad API command in generator mode: the result records it yields, in
  order, and the exception that ends the iteration, if one does. The API module maps a
  command name to such a callable; \<open>getattr\<close> raises \<open>AttributeError\<close> for a name
  it does not have.
\<close>

type_synonym api_call = "pyval list \<Rightarrow> pydict \<Rightarrow> pydict list \<times> pyerror option"
type_synonym api = "string \<Rightarrow> api_call option"

text \<open>The loop \<open>for res in cmd(*args, **kwargs): self.result_received.emit(res)\<close>.\<close>

primrec emit_results :: "pydict list \<Rightarrow> cmd_signal list" where
  "emit_results [] = []"
| "emit_results (res # rest) = ResultReceived res # emit_results rest"

text \<open>
  \<open>GooeyDataladCmdExec._cmdexec_thread\<close>: the signals emitted, in order, and the
  exception that leaves the worker function, if any. The local \<open>cmd\<close> is rebound to
  the callable before the loop, and \<open>kwargs\<close> gets the \<open>return_type\<close> entry; both
  are what the final \<open>emit\<close> passes.
\<close>

definition cmdexec_thread ::
  "api \<Rightarrow> string \<Rightarrow> string \<Rightarrow> pyval list \<Rightarrow> pydict \<Rightarrow> cmd_signal list \<times> pyerror option" where
  "cmdexec_thread dlapi thread_id cmd args kwargs =
     (let started = [ExecutionStarted thread_id (PStr cmd) args kwargs] in
      case dlapi cmd of
        None \<Rightarrow> (started, Some AttributeError)
      | Some functor \<Rightarrow>
          (let cmd' = PFunctor cmd;
               kwargs' = dict_set kwargs ''return_type'' (PStr ''generator'');
               (results, exc) = functor args kwargs'
           in case exc of
                Some e \<Rightarrow> (started @ emit_results results, Some e)
              | None \<Rightarrow>
                  (started @ emit_results results @
                     [ExecutionFinished thread_id cmd' args kwargs'], None)))"

fun is_finished :: "cmd_signal \<Rightarrow> bool" where
  "is_finished (ExecutionFinished t c a k) = True"
| "is_finished s = False"

fun is_error_result :: "cmd_signal \<Rightarrow> bool" where
  "is_error_result (ResultReceived res) = (dict_get res ''status'' = PStr ''error'')"
| "is_error_result s = False"

text \<open>A backend whose \<open>status\<close> command raises before it yields anything.\<close>

definition raising_api :: api where
  "raising_api = (\<lambda>name. if name = ''status''
      then Some (\<lambda>args kwargs. ([], Some (BackendError ''boom''))) else None)"

text \<open>A backend whose \<open>status\<close> command yields no record and returns.\<close>

definition quiet_api :: api where
  "quiet_api = (\<lambda>name. if name = ''status''
      then Some (\<lambda>args kwargs. ([], None)) else None)"

section \<open>Tree items (\<open>fsbrowser_item.py\<close>)\<close>

text \<open>
  An \<open>FSBrowserItem\<close> object is named by its identity together with the path that
  \<open>__init__\<close> stores under \<open>PathObjRole\<close>; no code of the repository stores another
  path later, so \<open>pathobj\<close> is a property of the reference. Everything the code
  mutates lives in the store: the type and state columns, the icons of columns 0 and 2
  (an icon is named by its resource), Qt's parent link and child list, and the lazily
  built \<open>_child_lookup\<close> dictionary (\<open>None\<close> until first use).
\<close>

datatype item_ref = ItemRef (obj_id: nat) (pathobj: path)

record item =
  datalad_type :: pyval
  state :: pyval
  icon0 :: "string option"
  icon2 :: "string option"
  parent :: "item_ref option"
  children :: "item_ref list"
  child_lookup :: "(string \<Rightarrow> item_ref option) option"

type_synonym store = "item_ref \<Rightarrow> item"

text \<open>\<open>FSBrowserItem.__init__\<close> without a parent item: empty columns, no lookup.\<close>

definition new_item :: item where
  "new_item = \<lparr> datalad_type = PNone, state = PNone, icon0 = None, icon2 = None,
                 parent = None, children = [], child_lookup = None \<rparr>"

text \<open>\<open>data(0, Qt.EditRole)\<close>: the name of the item's path.\<close>

definition item_name :: "item_ref \<Rightarrow> string" where
  "item_name it = path_name (pathobj it)"

text \<open>\<open>__getitem__\<close>: builds the lookup from the current children on first use.\<close>

definition build_lookup :: "item_ref list \<Rightarrow> string \<Rightarrow> item_ref option" where
  "build_lookup cs = map_of (rev (map (\<lambda>child. (item_name child, child)) cs))"

definition getitem :: "item_ref \<Rightarrow> string \<Rightarrow> store \<Rightarrow> item_ref option \<times> store" where
  "getitem it name s =
     (case child_lookup (s it) of
        None \<Rightarrow>
          (let d = build_lookup (children (s it))
           in (d name, s(it := (s it)\<lparr>child_lookup := Some d\<rparr>)))
      | Some d \<Rightarrow> (d name, s))"

definition register_child :: "item_ref \<Rightarrow> string \<Rightarrow> item_ref \<Rightarrow> store \<Rightarrow> store" where
  "register_child it name child s =
     (let d = (case child_lookup (s it) of None \<Rightarrow> (\<lambda>k. None) | Some d \<Rightarrow> d)
      in s(it := (s it)\<lparr>child_lookup := Some (d(name := Some child))\<rparr>))"

text \<open>
  Qt's \<open>QTreeWidgetItem.removeChild\<close>: takes the child out of the child list and
  clears its parent link; an item that is not a child is left alone.
\<close>

definition qt_removeChild :: "item_ref \<Rightarrow> item_ref \<Rightarrow> store \<Rightarrow> store" where
  "qt_removeChild it child s =
     (if child \<in> set (children (s it))
      then (let s1 = s(it := (s it)\<lparr>children := remove1 child (children (s it))\<rparr>)
            in s1(child := (s1 child)\<lparr>parent := None\<rparr>))
      else s)"

text \<open>
  \<open>FSBrowserItem.removeChild\<close>: the base-class call comes first, then
  \<open>del self._child_lookup[item.pathobj.name]\<close>, which raises \<open>TypeError\<close> on
  \<open>None\<close> and \<open>KeyError\<close> on a missing name. The store returned is the one the
  exception leaves behind.
\<close>

definition removeChild :: "item_ref \<Rightarrow> item_ref \<Rightarrow> store \<Rightarrow> store \<times> pyerror option" where
  "removeChild it child s =
     (let s1 = qt_removeChild it child s in
      case child_lookup (s1 it) of
        None \<Rightarrow> (s1, Some TypeError)
      | Some d \<Rightarrow>
          (case d (path_name (pathobj child)) of
             None \<Rightarrow> (s1, Some KeyError)
           | Some x \<Rightarrow>
               (s1(it := (s1 it)\<lparr>child_lookup := Some (d(path_name (pathobj child) := None))\<rparr>),
                None)))"

text \<open>
  \<open>_getIcon\<close>: the icon resource for a type or state; \<open>dict.get\<close> raises
  \<open>TypeError\<close> for an unhashable key (a list).
\<close>

definition icon_mapping :: "(string \<times> string) list" where
  "icon_mapping =
     [(''dataset'', ''dataset-closed''),
      (''directory'', ''directory-closed''),
      (''file'', ''file''),
      (''file-annex'', ''file-annex''),
      (''file-git'', ''file-git''),
      (''symlink'', ''file-annex''),
      (''untracked'', ''untracked''),
      (''clean'', ''clean''),
      (''modified'', ''modified''),
      (''deleted'', ''untracked''),
      (''unknown'', ''untracked''),
      (''added'', ''modified'')]"

fun getIcon :: "pyval \<Rightarrow> pyerror + string option" where
  "getIcon (PStr t) = Inr (map_of icon_mapping t)"
| "getIcon (PList xs) = Inl TypeError"
| "getIcon v = Inr None"

text \<open>\<open>FSBrowserItem.update_from_status_result\<close>.\<close>

definition update_from_status_result ::
  "item_ref \<Rightarrow> pydict \<Rightarrow> store \<Rightarrow> store \<times> pyerror option" where
  "update_from_status_result it res s =
     (let state0 = dict_get res ''state'';
          st = (if dict_get res ''status'' = PStr ''error'' \<and> dict_has res ''message''
                   \<and> state0 = PNone
                then dict_get res ''message'' else state0);
          state_icon = (if truthy (dict_get res ''key'') then ''file-git'' else ''file-annex'');
          r1 = (if truthy st
                then (let s' = s(it := (s it)\<lparr>state := st\<rparr>) in
                      case getIcon st of
                        Inl e \<Rightarrow> (s', Some e)
                      | Inr None \<Rightarrow> (s', None)
                      | Inr (Some icon) \<Rightarrow> (s'(it := (s' it)\<lparr>icon2 := Some icon\<rparr>), None))
                else (s, None))
      in case r1 of
           (s1, Some e) \<Rightarrow> (s1, Some e)
         | (s1, None) \<Rightarrow>
             (let rtype = dict_get res ''type'';
                  s2 = (if rtype = PStr ''file''
                        then s1(it := (s1 it)\<lparr>icon0 := map_of icon_mapping state_icon\<rparr>)
                        else s1);
                  s3 = (if truthy rtype then s2(it := (s2 it)\<lparr>datalad_type := rtype\<rparr>) else s2)
              in (s3, None)))"

section \<open>The filesystem browser (\<open>fsbrowser.py\<close>)\<close>

text \<open>
  What the browser does to the outside is kept in a log: \<open>emitDataChanged\<close> of an
  item, \<open>execute_dataladcmd.emit\<close>, the two \<open>connect\<close> calls on the executor's
  signals, and the calls of \<open>FSBrowserItem.from_path\<close> and \<open>update_from\<close>.
\<close>

datatype event =
    DataChanged item_ref
  | ExecuteDataladCmd string pydict
  | ResultReceiverConnected
  | FinishedHandlerConnected
  | FromPathCalled path
  | UpdateFromCalled item_ref

text \<open>
  The state of a \<open>GooeyFilesystemBrowser\<close>: the items, the root item, the set
  \<open>_annotation_queue\<close>, whether the annotation timer runs, the paths held by the
  \<open>QFileSystemWatcher\<close> (\<open>addPath\<close> and \<open>removePath\<close> are insertion and removal;
  the code only logs their boolean result), the items the tree widget shows expanded,
  and the log.
\<close>

record browser =
  items :: store
  root_item :: item_ref
  annotation_queue :: "item_ref set"
  annotation_timer_active :: bool
  fswatcher :: "string set"
  expanded :: "item_ref set"
  log :: "event list"

text \<open>
  \<open>FSBrowserItem.from_path\<close> and \<open>FSBrowserItem.update_from\<close> are called by the
  browser but are not part of the item class at hand; they are parameters. \<open>from_path\<close>
  takes the path, the \<open>root\<close> flag and the parent item, and gives the item it
  returns and the store with whatever items it created; \<open>update_from\<close> takes the
  item, the fresh item and the store.
\<close>

type_synonym from_path_fn = "path \<Rightarrow> bool \<Rightarrow> item_ref option \<Rightarrow> store \<Rightarrow> item_ref \<times> store"
type_synonym update_from_fn = "item_ref \<Rightarrow> item_ref \<Rightarrow> store \<Rightarrow> store"

text \<open>
  \<open>__init__\<close>: the root item is created without children and not expanded, nothing
  is watched or queued, and the annotation timer is started.
\<close>

definition new_browser :: "path \<Rightarrow> browser" where
  "new_browser p =
     \<lparr> items = (\<lambda>it. new_item), root_item = ItemRef 0 p, annotation_queue = {},
       annotation_timer_active = True, fswatcher = {}, expanded = {}, log = [] \<rparr>"

text \<open>\<open>_get_item_from_path\<close>: the inner loop over the children, then the loop over the parts.\<close>

fun find_child :: "item_ref list \<Rightarrow> string \<Rightarrow> item_ref option" where
  "find_child [] p = None"
| "find_child (child # rest) p = (if p = item_name child then Some child else find_child rest p)"

fun descend :: "store \<Rightarrow> item_ref \<Rightarrow> string list \<Rightarrow> pyerror + item_ref" where
  "descend s it [] = Inr it"
| "descend s it (p # ps) =
     (case find_child (children (s it)) p of
        None \<Rightarrow> Inl ValueError
      | Some child \<Rightarrow> descend s child ps)"

definition get_item_from_path :: "browser \<Rightarrow> path \<Rightarrow> pyerror + item_ref" where
  "get_item_from_path b p =
     (let it = root_item b in
      if p = pathobj it then Inr it
      else case relative_to p (pathobj it) of
             Inl e \<Rightarrow> Inl e
           | Inr parts \<Rightarrow> descend (items b) it parts)"

definition queue_item_for_annotation :: "item_ref \<Rightarrow> browser \<Rightarrow> browser" where
  "queue_item_for_annotation it b = b\<lparr>annotation_queue := insert it (annotation_queue b)\<rparr>"

text \<open>\<open>_annotate_item\<close>, the slot of \<open>item_annotation_available\<close>.\<close>

definition annotate_item :: "item_ref \<Rightarrow> pydict \<Rightarrow> browser \<Rightarrow> browser" where
  "annotate_item it props b =
     (if dict_has props ''state''
      then (let st = dict_get props ''state'';
                prev_state = state (items b it)
            in if st \<noteq> prev_state
               then b\<lparr>items := (items b)(it := (items b it)\<lparr>state := st\<rparr>),
                      log := log b @ [DataChanged it]\<rparr>
               else b)
      else b)"

text \<open>
  \<open>_status_result_receiver\<close>. \<open>Path(path)\<close> raises \<open>TypeError\<close> for a value
  that is neither a string nor a path. The call of \<open>_get_item_from_path\<close> is not
  guarded: its exception leaves the receiver.
\<close>

definition status_result_receiver :: "pydict \<Rightarrow> browser \<Rightarrow> browser \<times> pyerror option" where
  "status_result_receiver res b =
     (if dict_get res ''action'' \<noteq> PStr ''status'' then (b, None)
      else let p = dict_get res ''path'' in
        if p = PNone then (b, None)
        else let st = dict_get res ''state'' in
          if st = PNone then (b, None)
          else case (case p of PStr s \<Rightarrow> Inr (Path s) | PPath q \<Rightarrow> Inr q | _ \<Rightarrow> Inl TypeError) of
                 Inl e \<Rightarrow> (b, Some e)
               | Inr q \<Rightarrow>
                   (case get_item_from_path b q of
                      Inl e \<Rightarrow> (b, Some e)
                    | Inr it \<Rightarrow> (annotate_item it [(''state'', st)] b, None)))"

text \<open>
  The body of the \<open>while\<close> loop of \<open>_process_item_annotation_queue\<close> for one popped
  item. Without a dataset root, \<open>item_annotation_available\<close> is emitted for every
  child that is not a directory, which runs \<open>_annotate_item\<close>. With one, the two
  handlers are connected and \<open>status\<close> is submitted for the non-directory children,
  if there are any. \<open>get_dataset_root\<close> gives the root as a string or \<open>None\<close>;
  \<open>relative_to\<close> turns the string into a path, and the submission carries the string.
\<close>

fun annotate_untracked :: "item_ref list \<Rightarrow> browser \<Rightarrow> browser" where
  "annotate_untracked [] b = b"
| "annotate_untracked (child # rest) b =
     annotate_untracked rest
       (if datalad_type (items b child) \<noteq> PStr ''directory''
        then annotate_item child [(''state'', PStr ''untracked'')] b
        else b)"

fun paths_to_investigate :: "store \<Rightarrow> path \<Rightarrow> item_ref list \<Rightarrow> pyerror + path list" where
  "paths_to_investigate s dsroot [] = Inr []"
| "paths_to_investigate s dsroot (c # cs) =
     (if datalad_type (s c) \<noteq> PStr ''directory''
      then (case relative_to (pathobj c) dsroot of
              Inl e \<Rightarrow> Inl e
            | Inr rel \<Rightarrow>
                (case paths_to_investigate s dsroot cs of
                   Inl e \<Rightarrow> Inl e
                 | Inr rels \<Rightarrow> Inr (rel # rels)))
      else paths_to_investigate s dsroot cs)"

definition annotate_queued ::
  "(path \<Rightarrow> string option) \<Rightarrow> item_ref \<Rightarrow> browser \<Rightarrow> browser \<times> pyerror option" where
  "annotate_queued get_dataset_root it b =
     (case get_dataset_root (pathobj it) of
        None \<Rightarrow> (annotate_untracked (children (items b it)) b, None)
      | Some dsroot \<Rightarrow>
          (let b1 = b\<lparr>log := log b @ [ResultReceiverConnected, FinishedHandlerConnected]\<rparr> in
           case paths_to_investigate (items b1) (Path dsroot) (children (items b1 it)) of
             Inl e \<Rightarrow> (b1, Some e)
           | Inr paths \<Rightarrow>
               if paths \<noteq> []
               then (b1\<lparr>log := log b1 @
                       [ExecuteDataladCmd ''status''
                          [(''dataset'', PStr dsroot), (''path'', PList (map PPath paths))]]\<rparr>,
                     None)
               else (b1, None)))"

text \<open>
  The \<open>while\<close> loop. \<open>set.pop()\<close> removes and returns an arbitrary element, so the
  loop is a relation: from a browser, a drain order and the browser it ends in (with
  the exception, if the body raised). Any element of the set may be the one popped.
\<close>

inductive drain_queue ::
  "(path \<Rightarrow> string option) \<Rightarrow> browser \<Rightarrow> item_ref list \<Rightarrow> browser \<times> pyerror option \<Rightarrow> bool"
  for get_dataset_root :: "path \<Rightarrow> string option" where
  drain_done:
    "annotation_queue b = {} \<Longrightarrow> drain_queue get_dataset_root b [] (b, None)"
| drain_pop:
    "it \<in> annotation_queue b \<Longrightarrow>
     annotate_queued get_dataset_root it (b\<lparr>annotation_queue := annotation_queue b - {it}\<rparr>)
       = (b1, None) \<Longrightarrow>
     drain_queue get_dataset_root b1 order r \<Longrightarrow>
     drain_queue get_dataset_root b (it # order) r"
| drain_raise:
    "it \<in> annotation_queue b \<Longrightarrow>
     annotate_queued get_dataset_root it (b\<lparr>annotation_queue := annotation_queue b - {it}\<rparr>)
       = (b1, Some e) \<Longrightarrow>
     drain_queue get_dataset_root b [it] (b1, Some e)"

text \<open>
  \<open>_process_item_annotation_queue\<close>, one timer tick: nothing on an empty queue;
  otherwise the timer is stopped, the queue drained, and the timer started again
  (unless an exception left the loop).
\<close>

inductive process_item_annotation_queue ::
  "(path \<Rightarrow> string option) \<Rightarrow> browser \<Rightarrow> item_ref list \<Rightarrow> browser \<times> pyerror option \<Rightarrow> bool"
  for get_dataset_root :: "path \<Rightarrow> string option" where
  tick_idle:
    "annotation_queue b = {} \<Longrightarrow>
     process_item_annotation_queue get_dataset_root b [] (b, None)"
| tick_drained:
    "annotation_queue b \<noteq> {} \<Longrightarrow>
     drain_queue get_dataset_root (b\<lparr>annotation_timer_active := False\<rparr>) order (b1, None) \<Longrightarrow>
     process_item_annotation_queue get_dataset_root b order
       (b1\<lparr>annotation_timer_active := True\<rparr>, None)"
| tick_raised:
    "annotation_queue b \<noteq> {} \<Longrightarrow>
     drain_queue get_dataset_root (b\<lparr>annotation_timer_active := False\<rparr>) order (b1, Some e) \<Longrightarrow>
     process_item_annotation_queue get_dataset_root b order (b1, Some e)"

text \<open>
  Both relations can be run: given the browser and a drain order, they compute the
  outcome of the run that pops the items in that order.
\<close>

code_pred (modes: i \<Rightarrow> i \<Rightarrow> i \<Rightarrow> o \<Rightarrow> bool as run_drain_queue) drain_queue .

code_pred (modes: i \<Rightarrow> i \<Rightarrow> i \<Rightarrow> o \<Rightarrow> bool as run_annotation_tick)
  process_item_annotation_queue .











text \<open>
  \<open>_inspect_changed_dir\<close>, the slot of the watcher's \<open>directoryChanged\<close>.
  \<open>path_exists\<close> is \<open>Path.exists\<close> on the disk. After \<open>parent.removeChild(item)\<close>
  there is no \<open>return\<close>: control goes on to \<open>from_path\<close> and \<open>update_from\<close>.
\<close>

definition inspect_changed_dir ::
  "(path \<Rightarrow> bool) \<Rightarrow> from_path_fn \<Rightarrow> update_from_fn \<Rightarrow> string \<Rightarrow> browser
     \<Rightarrow> browser \<times> pyerror option" where
  "inspect_changed_dir path_exists from_path update_from p b =
     (let pobj = Path p in
      case get_item_from_path b pobj of
        Inl e \<Rightarrow>
          (if e = ValueError then (b\<lparr>fswatcher := fswatcher b - {p}\<rparr>, None)
           else (b, Some e))
      | Inr it \<Rightarrow>
          (let par = parent (items b it);
               r1 = (if \<not> path_exists pobj
                     then (case par of
                             None \<Rightarrow> (b, Some NotImplementedError)
                           | Some pit \<Rightarrow>
                               (case removeChild pit it (items b) of
                                  (s1, exc) \<Rightarrow> (b\<lparr>items := s1\<rparr>, exc)))
                     else (b, None))
           in case r1 of
                (b1, Some e) \<Rightarrow> (b1, Some e)
              | (b1, None) \<Rightarrow>
                  (let (newitem, s2) = from_path pobj True None (items b1);
                       b2 = b1\<lparr>items := s2, log := log b1 @ [FromPathCalled pobj]\<rparr>
                   in (b2\<lparr>items := update_from it newitem (items b2),
                          log := log b2 @ [UpdateFromCalled it]\<rparr>, None))))"

text \<open>
  Concrete items for the worked cases: the root \<open>/ds\<close>, a directory \<open>/ds/sub\<close>, a
  file path \<open>/ds/a.txt\<close> and a directory \<open>/ds/other\<close>. The stand-ins for the two
  absent methods create nothing and change nothing.
\<close>

definition ds_root :: item_ref where
  "ds_root = ItemRef 0 [''/'', ''ds'']"

definition ds_sub :: item_ref where
  "ds_sub = ItemRef 1 [''/'', ''ds'', ''sub'']"

definition ds_file :: item_ref where
  "ds_file = ItemRef 2 [''/'', ''ds'', ''a.txt'']"

definition ds_other :: item_ref where
  "ds_other = ItemRef 3 [''/'', ''ds'', ''other'']"

definition ds_items :: store where
  "ds_items =
     (\<lambda>it. new_item)
       (ds_root := new_item\<lparr>datalad_type := PStr ''dataset'',
                           children := [ds_sub, ds_file],
                           child_lookup :=
                             Some ((\<lambda>k. None)(''sub'' := Some ds_sub, ''a.txt'' := Some ds_file))\<rparr>,
        ds_sub := new_item\<lparr>datalad_type := PStr ''directory'', parent := Some ds_root\<rparr>,
        ds_file := new_item\<lparr>datalad_type := PStr ''file'', parent := Some ds_root\<rparr>)"

definition ds_browser :: browser where
  "ds_browser = (new_browser [''/'', ''ds''])\<lparr>items := ds_items\<rparr>"




definition no_from_path :: from_path_fn where
  "no_from_path p root par s = (ItemRef 99 p, s)"

definition no_update_from :: update_from_fn where
  "no_update_from it newitem s = s"

text \<open>A store where \<open>/ds\<close> has the child \<open>/ds/sub\<close> and its lookup was never built.\<close>

definition bare_items :: store where
  "bare_items =
     (\<lambda>it. new_item)
       (ds_root := new_item\<lparr>children := [ds_sub]\<rparr>,
        ds_sub := new_item\<lparr>parent := Some ds_root\<rparr>)"

text \<open>A backend submission in the log.\<close>

fun is_submission :: "event \<Rightarrow> bool" where
  "is_submission (ExecuteDataladCmd c k) = True"
| "is_submission ev = False"

text \<open>
  The browser right after \<open>__init__\<close> on \<open>/ds\<close>, and the same browser with a
  given annotation queue and timer state. No item has children there.
\<close>

definition idle_browser :: browser where
  "idle_browser = new_browser [''/'', ''ds'']"

definition queued :: "item_ref set \<Rightarrow> bool \<Rightarrow> browser" where
  "queued q timer = idle_browser\<lparr>annotation_queue := q, annotation_timer_active := timer\<rparr>"

section \<open>Properties of the command executor\<close>

lemma emit_results_not_finished: "list_ex is_finished (emit_results rs) = False"
  by (induction rs) simp_all

lemma emit_results_pass_through:
  "list_ex is_error_result (emit_results rs) =
     list_ex (\<lambda>res. dict_get res ''status'' = PStr ''error'') rs"
  by (induction rs) simp_all

text \<open>
  C1, as the code has it. A backend call that raises ends the worker function with that
  exception: the signals emitted are Started and one \<open>result_received\<close> per record the
  backend yielded before raising, nothing else. No Finished signal is among them, and
  every record passed on is a record of the backend (none is made up by the executor).
\<close>

theorem cmdexec_thread_raise_propagates:
  assumes "dlapi cmd = Some functor"
      and "functor args (dict_set kwargs ''return_type'' (PStr ''generator'')) = (results, Some e)"
  shows "cmdexec_thread dlapi thread_id cmd args kwargs =
           (ExecutionStarted thread_id (PStr cmd) args kwargs # emit_results results, Some e)
         \<and> list_ex is_finished (fst (cmdexec_thread dlapi thread_id cmd args kwargs)) = False"
  using assms by (simp add: cmdexec_thread_def emit_results_not_finished)

theorem cmdexec_thread_raise_propagates_witness:
  "raising_api ''status'' = Some (\<lambda>args kwargs. ([], Some (BackendError ''boom'')))
   \<and> cmdexec_thread raising_api ''t1'' ''status'' [] [] =
       ([ExecutionStarted ''t1'' (PStr ''status'') [] []], Some (BackendError ''boom''))"
  using cmdexec_thread_raise_propagates
    [of raising_api "''status''" "\<lambda>args kwargs. ([], Some (BackendError ''boom''))"
        "[]" "[]" "[]" "BackendError ''boom''" "''t1''"]
  by (simp add: raising_api_def)

text \<open>
  C1, refuted as stated: with a backend that raises, the executor emits neither a
  synthetic error result nor Finished.
\<close>

theorem cmdexec_thread_no_finished_on_raise:
  "snd (cmdexec_thread raising_api ''t1'' ''status'' [] []) = Some (BackendError ''boom'')
   \<and> list_ex is_finished (fst (cmdexec_thread raising_api ''t1'' ''status'' [] [])) = False
   \<and> list_ex is_error_result (fst (cmdexec_thread raising_api ''t1'' ''status'' [] [])) = False"
  by (simp add: cmdexec_thread_def raising_api_def)

text \<open>
  C5 at a concrete submission: \<open>status\<close> with no arguments, on a backend that yields
  nothing. Started and Finished carry the same thread identifier, but the command-name
  slot of Finished holds the API callable the name was resolved to, not the name.
\<close>

theorem cmdexec_thread_finished_carries_functor:
  "cmdexec_thread quiet_api ''t1'' ''status'' [] [] =
     ([ExecutionStarted ''t1'' (PStr ''status'') [] [],
       ExecutionFinished ''t1'' (PFunctor ''status'') []
         [(''return_type'', PStr ''generator'')]], None)
   \<and> PFunctor ''status'' \<noteq> PStr ''status''"
  by (simp add: cmdexec_thread_def quiet_api_def dict_set_def)

section \<open>Properties of the tree items\<close>

lemma refs_distinct [simp]:
  "ds_root \<noteq> ds_sub" "ds_root \<noteq> ds_file" "ds_sub \<noteq> ds_file"
  "ds_sub \<noteq> ds_root" "ds_file \<noteq> ds_root" "ds_file \<noteq> ds_sub"
  by (simp_all add: ds_root_def ds_sub_def ds_file_def)

lemma removeChild_lookup_kept:
  "child_lookup (qt_removeChild it child s it) = child_lookup (s it)"
  by (simp add: qt_removeChild_def Let_def)

lemma removeChild_children:
  "children (qt_removeChild it child s it) = remove1 child (children (s it))"
  by (simp add: qt_removeChild_def Let_def remove1_idem)

text \<open>
  C10, as the code has it. \<open>removeChild\<close> always takes the child out of the parent's
  child list first (the base-class call). It then returns normally exactly when the
  parent's lookup exists and holds the child's name; it raises \<open>TypeError\<close> exactly
  when the lookup was never built, and \<open>KeyError\<close> exactly when the lookup exists
  without the name. In both failures the child is already detached. Afterwards the
  parent's lookup is the one it had with the child's name deleted: still \<open>None\<close>
  if it was never built, and otherwise the same dictionary without that name, every
  other name kept.
\<close>

theorem removeChild_detaches_then_deletes:
  "children (fst (removeChild it child s) it) = remove1 child (children (s it))
   \<and> (snd (removeChild it child s) = None) =
       (\<exists>d x. child_lookup (s it) = Some d \<and> d (path_name (pathobj child)) = Some x)
   \<and> (snd (removeChild it child s) = Some TypeError) = (child_lookup (s it) = None)
   \<and> (snd (removeChild it child s) = Some KeyError) =
       (\<exists>d. child_lookup (s it) = Some d \<and> d (path_name (pathobj child)) = None)
   \<and> child_lookup (fst (removeChild it child s) it) =
       map_option (\<lambda>d. d(path_name (pathobj child) := None)) (child_lookup (s it))"
proof -
  let ?s1 = "qt_removeChild it child s"
  have ch: "children (fst (removeChild it child s) it) = remove1 child (children (s it))"
    using removeChild_children [of it child s]
    by (simp add: removeChild_def Let_def split: option.splits)
  have lk: "child_lookup (?s1 it) = child_lookup (s it)"
    by (rule removeChild_lookup_kept)
  have r: "snd (removeChild it child s) =
      (case child_lookup (s it) of
         None \<Rightarrow> Some TypeError
       | Some d \<Rightarrow>
           (case d (path_name (pathobj child)) of None \<Rightarrow> Some KeyError | Some x \<Rightarrow> None))"
    using lk by (simp add: removeChild_def Let_def split: option.splits)
  have del: "child_lookup (fst (removeChild it child s) it) =
      map_option (\<lambda>d. d(path_name (pathobj child) := None)) (child_lookup (s it))"
    using lk by (auto simp add: removeChild_def Let_def split: option.splits)
  have "(snd (removeChild it child s) = None) =
       (\<exists>d x. child_lookup (s it) = Some d \<and> d (path_name (pathobj child)) = Some x)"
      "(snd (removeChild it child s) = Some TypeError) = (child_lookup (s it) = None)"
      "(snd (removeChild it child s) = Some KeyError) =
       (\<exists>d. child_lookup (s it) = Some d \<and> d (path_name (pathobj child)) = None)"
    using r by (auto split: option.splits)
  with ch del show ?thesis by simp
qed

text \<open>
  On the tree \<open>/ds\<close> with the registered children \<open>sub\<close> and \<open>a.txt\<close>,
  removing \<open>sub\<close> succeeds, leaves the child list \<open>[a.txt]\<close>, and the lookup
  no longer knows \<open>sub\<close> but still knows \<open>a.txt\<close>.
\<close>

lemma removeChild_registered_child:
  "snd (removeChild ds_root ds_sub ds_items) = None
   \<and> children (fst (removeChild ds_root ds_sub ds_items) ds_root) = [ds_file]
   \<and> map_option (\<lambda>d. (d ''sub'', d ''a.txt''))
        (child_lookup (fst (removeChild ds_root ds_sub ds_items) ds_root))
       = Some (None, Some ds_file)"
proof -
  have nm: "path_name (pathobj ds_sub) = ''sub''"
    by (simp add: ds_sub_def path_name_def)
  show ?thesis
    using nm by (simp add: removeChild_def qt_removeChild_def ds_items_def new_item_def Let_def)
qed

text \<open>
  C10, refuted as stated: on a parent whose lookup was never built, \<open>removeChild\<close>
  raises and the child is detached all the same (gone from the child list, its parent
  link cleared).
\<close>

theorem removeChild_raises_after_detaching:
  "child_lookup (bare_items ds_root) = None
   \<and> children (bare_items ds_root) = [ds_sub]
   \<and> snd (removeChild ds_root ds_sub bare_items) = Some TypeError
   \<and> children (fst (removeChild ds_root ds_sub bare_items) ds_root) = []
   \<and> parent (fst (removeChild ds_root ds_sub bare_items) ds_sub) = None"
  by (simp add: removeChild_def qt_removeChild_def bare_items_def new_item_def Let_def)

section \<open>Properties of the annotation of items\<close>

lemma annotate_item_log:
  "log (annotate_item it props b) =
     log b @ (if dict_has props ''state'' \<and> dict_get props ''state'' \<noteq> state (items b it)
              then [DataChanged it] else [])"
  by (simp add: annotate_item_def Let_def)

lemma annotate_item_state:
  "state (items (annotate_item it props b) x) =
     (if x = it \<and> dict_has props ''state'' then dict_get props ''state'' else state (items b x))"
  by (simp add: annotate_item_def Let_def)

lemma annotate_item_same:
  "dict_get props ''state'' = state (items b it) \<Longrightarrow> annotate_item it props b = b"
  by (simp add: annotate_item_def Let_def)

lemma annotate_item_type:
  "datalad_type (items (annotate_item it props b) x) = datalad_type (items b x)"
  by (simp add: annotate_item_def Let_def)

lemma annotate_item_other:
  "x \<noteq> it \<Longrightarrow> items (annotate_item it props b) x = items b x"
  by (simp add: annotate_item_def Let_def)

lemma annotate_item_submissions:
  "filter is_submission (log (annotate_item it props b)) = filter is_submission (log b)"
  by (simp add: annotate_item_log)

text \<open>
  C7. With a \<open>state\<close> in the properties, \<open>_annotate_item\<close> leaves the item with that
  state; it emits \<open>dataChanged\<close> for the item exactly when the new value differs
  from the old one; it changes nothing at all exactly when the values are equal; and
  applying the same properties a second time changes nothing and emits nothing.
\<close>

theorem annotate_item_changes_once:
  assumes "dict_has props ''state''"
  shows "state (items (annotate_item it props b) it) = dict_get props ''state''
       \<and> log (annotate_item it props b) =
           log b @ (if dict_get props ''state'' \<noteq> state (items b it)
                    then [DataChanged it] else [])
       \<and> (dict_get props ''state'' = state (items b it)) = (annotate_item it props b = b)
       \<and> annotate_item it props (annotate_item it props b) = annotate_item it props b"
proof -
  let ?b' = "annotate_item it props b"
  have st: "state (items ?b' it) = dict_get props ''state''"
    using assms by (simp add: annotate_item_state)
  have lg: "log ?b' =
      log b @ (if dict_get props ''state'' \<noteq> state (items b it) then [DataChanged it] else [])"
    using assms by (simp add: annotate_item_log)
  have same: "(dict_get props ''state'' = state (items b it)) = (?b' = b)"
  proof
    assume "dict_get props ''state'' = state (items b it)"
    then show "?b' = b" by (rule annotate_item_same)
  next
    assume "?b' = b"
    then have "log ?b' = log b" by simp
    with lg show "dict_get props ''state'' = state (items b it)"
      by (simp split: if_splits)
  qed
  have again: "annotate_item it props ?b' = ?b'"
    using st by (simp add: annotate_item_same)
  from st lg same again show ?thesis by blast
qed

theorem annotate_item_changes_once_witness:
  "dict_has [(''state'', PStr ''clean'')] ''state''
   \<and> state (items (annotate_item ds_file [(''state'', PStr ''clean'')] ds_browser) ds_file)
       = PStr ''clean''
   \<and> log (annotate_item ds_file [(''state'', PStr ''clean'')] ds_browser) = [DataChanged ds_file]
   \<and> log (annotate_item ds_file [(''state'', PStr ''clean'')]
            (annotate_item ds_file [(''state'', PStr ''clean'')] ds_browser))
       = [DataChanged ds_file]"
proof -
  have h: "dict_has [(''state'', PStr ''clean'')] ''state''"
    by (simp add: dict_has_def)
  have s0: "state (items ds_browser ds_file) = PNone" "log ds_browser = []"
    by (simp_all add: ds_browser_def ds_items_def new_item_def new_browser_def)
  show ?thesis
    using h s0 annotate_item_changes_once [OF h, of ds_file ds_browser]
    by (simp add: dict_get_def)
qed

section \<open>Properties of the result receiver\<close>

text \<open>
  C2 at a concrete record: the tree holds \<open>/ds\<close> with the children \<open>sub\<close> and
  \<open>a.txt\<close>, and a status record arrives for \<open>/ds/gone.txt\<close>. No item is touched,
  but the \<open>ValueError\<close> of \<open>_get_item_from_path\<close> leaves the receiver.
\<close>

theorem status_result_receiver_raises_on_stale_path:
  "status_result_receiver
     [(''action'', PStr ''status''), (''path'', PStr ''/ds/gone.txt''),
      (''state'', PStr ''clean'')]
     ds_browser = (ds_browser, Some ValueError)"
  by (simp add: status_result_receiver_def dict_get_def Path_def path_root_def
      get_item_from_path_def ds_browser_def new_browser_def relative_to_def ds_items_def
      ds_root_def ds_sub_def ds_file_def item_name_def path_name_def is_root_part_def
      new_item_def)

text \<open>
  C8, as the code has it. For a record without a state that carries
  \<open>status == error\<close> and a non-empty message string,
  \<open>update_from_status_result\<close> stores the message as the item's state and raises
  nothing; the browser's result receiver, however, drops the record: the browser is
  unchanged and nothing is raised. The receiver does so for every record without a
  state.
\<close>

theorem error_message_as_state_only_in_item_update:
  assumes "dict_get res ''status'' = PStr ''error''"
      and "dict_get res ''message'' = PStr m"
      and "m \<noteq> []"
      and "dict_get res ''state'' = PNone"
  shows "state (fst (update_from_status_result it res s) it) = PStr m
       \<and> snd (update_from_status_result it res s) = None
       \<and> status_result_receiver res b = (b, None)
       \<and> (\<forall>res' b'. dict_get res' ''state'' = PNone
              \<longrightarrow> status_result_receiver res' b' = (b', None))"
proof -
  have has: "dict_has res ''message''"
    using assms(2) by (auto simp add: dict_has_def dict_get_def split: option.splits)
  have upd: "state (fst (update_from_status_result it res s) it) = PStr m
       \<and> snd (update_from_status_result it res s) = None"
    using assms has
    by (simp add: update_from_status_result_def Let_def split: option.splits)
  have rcv: "status_result_receiver res b = (b, None)"
    using assms(4) by (simp add: status_result_receiver_def Let_def)
  have every: "\<forall>res' b'. dict_get res' ''state'' = PNone
      \<longrightarrow> status_result_receiver res' b' = (b', None)"
    by (simp add: status_result_receiver_def Let_def)
  from upd rcv every show ?thesis by simp
qed

theorem error_message_as_state_only_in_item_update_witness:
  "dict_get [(''action'', PStr ''status''), (''path'', PStr ''/ds/a.txt''),
             (''status'', PStr ''error''), (''message'', PStr ''boom'')] ''status''
     = PStr ''error''
   \<and> state (fst (update_from_status_result ds_file
        [(''action'', PStr ''status''), (''path'', PStr ''/ds/a.txt''),
         (''status'', PStr ''error''), (''message'', PStr ''boom'')] ds_items) ds_file)
     = PStr ''boom''"
  using error_message_as_state_only_in_item_update
    [of "[(''action'', PStr ''status''), (''path'', PStr ''/ds/a.txt''),
          (''status'', PStr ''error''), (''message'', PStr ''boom'')]" "''boom''"
        ds_file ds_items ds_browser]
  by (simp add: dict_get_def)

text \<open>
  C8, refuted as stated: an error record with a message and no state, for the live
  item \<open>/ds/a.txt\<close>, goes through the result receiver without any effect.
\<close>

theorem status_result_receiver_drops_error_message:
  "status_result_receiver
     [(''action'', PStr ''status''), (''path'', PStr ''/ds/a.txt''),
      (''status'', PStr ''error''), (''message'', PStr ''boom'')]
     ds_browser = (ds_browser, None)
   \<and> state (items ds_browser ds_file) = PNone"
  by (simp add: status_result_receiver_def dict_get_def ds_browser_def ds_items_def
      new_item_def)

section \<open>Properties of the annotation queue\<close>

lemma untracked_props [simp]:
  "dict_has [(''state'', PStr ''untracked'')] ''state''"
  "dict_get [(''state'', PStr ''untracked'')] ''state'' = PStr ''untracked''"
  by (simp_all add: dict_has_def dict_get_def)

lemma annotate_untracked_type:
  "datalad_type (items (annotate_untracked cs b) x) = datalad_type (items b x)"
  by (induction cs arbitrary: b) (simp_all add: annotate_item_type)

lemma annotate_untracked_state:
  "state (items (annotate_untracked cs b) x) =
     (if x \<in> set cs \<and> datalad_type (items b x) \<noteq> PStr ''directory''
      then PStr ''untracked'' else state (items b x))"
proof (induction cs arbitrary: b)
  case Nil
  show ?case by simp
next
  case (Cons c cs)
  show ?case
    by (auto simp add: Cons.IH annotate_item_type annotate_item_state)
qed

lemma annotate_untracked_other:
  "x \<notin> set cs \<or> datalad_type (items b x) = PStr ''directory''
     \<Longrightarrow> items (annotate_untracked cs b) x = items b x"
proof (induction cs arbitrary: b)
  case Nil
  show ?case by simp
next
  case (Cons c cs)
  show ?case
  proof (cases "datalad_type (items b c) \<noteq> PStr ''directory''")
    case True
    with Cons.prems have ne: "x \<noteq> c" by auto
    let ?b1 = "annotate_item c [(''state'', PStr ''untracked'')] b"
    have "x \<notin> set cs \<or> datalad_type (items ?b1 x) = PStr ''directory''"
      using Cons.prems by (auto simp add: annotate_item_type)
    then have "items (annotate_untracked cs ?b1) x = items ?b1 x"
      by (rule Cons.IH)
    with ne True show ?thesis by (simp add: annotate_item_other)
  next
    case False
    have "x \<notin> set cs \<or> datalad_type (items b x) = PStr ''directory''"
      using Cons.prems False by auto
    then have "items (annotate_untracked cs b) x = items b x"
      by (rule Cons.IH)
    with False show ?thesis by simp
  qed
qed

lemma annotate_untracked_submissions:
  "filter is_submission (log (annotate_untracked cs b)) = filter is_submission (log b)"
  by (induction cs arbitrary: b) (simp_all add: annotate_item_submissions)

text \<open>
  C6. When the popped item has no dataset root, the loop body raises nothing; every
  child whose type is not \<open>directory\<close> ends with the state \<open>untracked\<close>, every
  directory child is exactly as it was, and the log holds no backend submission that
  was not there before.
\<close>

theorem no_dataset_root_marks_untracked:
  assumes "get_dataset_root (pathobj it) = None"
  shows "snd (annotate_queued get_dataset_root it b) = None
       \<and> (\<forall>c \<in> set (children (items b it)).
            if datalad_type (items b c) \<noteq> PStr ''directory''
            then state (items (fst (annotate_queued get_dataset_root it b)) c)
                   = PStr ''untracked''
            else items (fst (annotate_queued get_dataset_root it b)) c = items b c)
       \<and> filter is_submission (log (fst (annotate_queued get_dataset_root it b)))
           = filter is_submission (log b)"
  using assms
  by (simp add: annotate_queued_def annotate_untracked_state annotate_untracked_other
      annotate_untracked_submissions)

theorem no_dataset_root_marks_untracked_witness:
  "(\<lambda>p. None :: string option) (pathobj ds_root) = None
   \<and> children (items ds_browser ds_root) = [ds_sub, ds_file]
   \<and> state (items (fst (annotate_queued (\<lambda>p. None) ds_root ds_browser)) ds_file)
       = PStr ''untracked''
   \<and> items (fst (annotate_queued (\<lambda>p. None) ds_root ds_browser)) ds_sub
       = items ds_browser ds_sub
   \<and> filter is_submission (log (fst (annotate_queued (\<lambda>p. None) ds_root ds_browser))) = []"
proof -
  have ch: "children (items ds_browser ds_root) = [ds_sub, ds_file]"
    by (simp add: ds_browser_def ds_items_def new_item_def)
  have ty: "datalad_type (items ds_browser ds_sub) = PStr ''directory''"
      "datalad_type (items ds_browser ds_file) = PStr ''file''"
    by (simp_all add: ds_browser_def ds_items_def new_item_def)
  have lg: "log ds_browser = []"
    by (simp add: ds_browser_def new_browser_def)
  show ?thesis
    using no_dataset_root_marks_untracked [of "\<lambda>p. None" ds_root ds_browser] ch ty lg
    by simp
qed

lemma other_distinct [simp]:
  "ds_other \<noteq> ds_sub" "ds_other \<noteq> ds_file" "ds_sub \<noteq> ds_other" "ds_file \<noteq> ds_other"
  by (simp_all add: ds_other_def ds_sub_def ds_file_def)

lemma annotate_queued_childless:
  "annotate_queued (\<lambda>p. None) it (queued q t) = (queued q t, None)"
  by (simp add: annotate_queued_def queued_def idle_browser_def new_browser_def new_item_def)

lemma queued_pop:
  "(queued q t)\<lparr>annotation_queue := annotation_queue (queued q t) - {it}\<rparr> = queued (q - {it}) t"
  by (simp add: queued_def)

text \<open>Any order without repetition is a drain order of the set of its elements.\<close>

lemma drain_queue_any_order:
  "distinct order \<Longrightarrow>
   drain_queue (\<lambda>p. None) (queued (set order) t) order (queued {} t, None)"
proof (induction order)
  case Nil
  show ?case by (simp add: drain_done queued_def)
next
  case (Cons it order)
  from Cons.prems have rest: "set (it # order) - {it} = set order" by auto
  from Cons.prems have tail: "drain_queue (\<lambda>p. None) (queued (set order) t) order (queued {} t, None)"
    by (simp add: Cons.IH)
  show ?case
  proof (rule drain_pop [OF _ _ tail])
    show "it \<in> annotation_queue (queued (set (it # order)) t)"
      by (simp add: queued_def)
    show "annotate_queued (\<lambda>p. None) it
        ((queued (set (it # order)) t)\<lparr>annotation_queue :=
            annotation_queue (queued (set (it # order)) t) - {it}\<rparr>)
        = (queued (set order) t, None)"
      using rest by (simp only: queued_pop annotate_queued_childless)
  qed
qed

lemma tick_any_order:
  assumes "distinct order" and "order \<noteq> []"
  shows "process_item_annotation_queue (\<lambda>p. None) (queued (set order) True) order
           (idle_browser, None)"
proof -
  have stop: "(queued (set order) True)\<lparr>annotation_timer_active := False\<rparr>
      = queued (set order) False"
    by (simp add: queued_def)
  have start: "(queued {} False)\<lparr>annotation_timer_active := True\<rparr> = idle_browser"
    by (simp add: queued_def idle_browser_def new_browser_def)
  have ne: "annotation_queue (queued (set order) True) \<noteq> {}"
    using assms(2) by (simp add: queued_def)
  have "drain_queue (\<lambda>p. None) ((queued (set order) True)\<lparr>annotation_timer_active := False\<rparr>)
      order (queued {} False, None)"
    using assms(1) by (simp only: stop drain_queue_any_order)
  with ne have "process_item_annotation_queue (\<lambda>p. None) (queued (set order) True) order
      ((queued {} False)\<lparr>annotation_timer_active := True\<rparr>, None)"
    by (rule tick_drained)
  then show ?thesis by (simp only: start)
qed

text \<open>
  C3 at a concrete queue: the items \<open>/ds/sub\<close>, \<open>/ds/a.txt\<close> and \<open>/ds/other\<close>
  are queued in this order, and no path has a dataset root. The queue is a set, so it
  is the same queue as after queueing them in the opposite order; and a tick may drain
  it in insertion order as well as in reverse order.
\<close>

theorem annotation_queue_drain_order_arbitrary:
  "queue_item_for_annotation ds_other
     (queue_item_for_annotation ds_file (queue_item_for_annotation ds_sub idle_browser))
   = queue_item_for_annotation ds_sub
     (queue_item_for_annotation ds_file (queue_item_for_annotation ds_other idle_browser))
   \<and> process_item_annotation_queue (\<lambda>p. None)
       (queue_item_for_annotation ds_other
         (queue_item_for_annotation ds_file (queue_item_for_annotation ds_sub idle_browser)))
       [ds_sub, ds_file, ds_other] (idle_browser, None)
   \<and> process_item_annotation_queue (\<lambda>p. None)
       (queue_item_for_annotation ds_other
         (queue_item_for_annotation ds_file (queue_item_for_annotation ds_sub idle_browser)))
       [ds_other, ds_file, ds_sub] (idle_browser, None)"
proof -
  have q: "queue_item_for_annotation ds_other
     (queue_item_for_annotation ds_file (queue_item_for_annotation ds_sub idle_browser))
     = queued {ds_sub, ds_file, ds_other} True"
    by (auto simp add: queue_item_for_annotation_def queued_def idle_browser_def new_browser_def)
  have q': "queue_item_for_annotation ds_sub
     (queue_item_for_annotation ds_file (queue_item_for_annotation ds_other idle_browser))
     = queued {ds_sub, ds_file, ds_other} True"
    by (auto simp add: queue_item_for_annotation_def queued_def idle_browser_def new_browser_def)
  have fifo: "process_item_annotation_queue (\<lambda>p. None) (queued (set [ds_sub, ds_file, ds_other]) True)
      [ds_sub, ds_file, ds_other] (idle_browser, None)"
    by (rule tick_any_order) simp_all
  have lifo: "process_item_annotation_queue (\<lambda>p. None) (queued (set [ds_other, ds_file, ds_sub]) True)
      [ds_other, ds_file, ds_sub] (idle_browser, None)"
    by (rule tick_any_order) simp_all
  have s: "set [ds_sub, ds_file, ds_other] = {ds_sub, ds_file, ds_other}"
      "set [ds_other, ds_file, ds_sub] = {ds_sub, ds_file, ds_other}"
    by auto
  from fifo lifo show ?thesis
    unfolding s q q' by simp
qed

section \<open>Properties of the watcher and the reconciler\<close>









text \<open>
  C4 at a concrete change: the tree holds \<open>/ds\<close> with the children \<open>sub\<close> and
  \<open>a.txt\<close>, and \<open>/ds/sub\<close> is reported changed when it no longer exists. The item
  is removed from its parent, and then \<open>from_path\<close> is called on the vanished path
  and \<open>update_from\<close> on the removed item. When it is the root \<open>/ds\<close> that no
  longer exists, \<open>NotImplementedError\<close> is raised and nothing is changed.
\<close>

theorem inspect_changed_dir_goes_on_after_removal:
  "snd (inspect_changed_dir (\<lambda>q. q \<noteq> [''/'', ''ds'', ''sub'']) no_from_path no_update_from
          ''/ds/sub'' ds_browser) = None
   \<and> children (items (fst (inspect_changed_dir (\<lambda>q. q \<noteq> [''/'', ''ds'', ''sub''])
          no_from_path no_update_from ''/ds/sub'' ds_browser)) ds_root) = [ds_file]
   \<and> log (fst (inspect_changed_dir (\<lambda>q. q \<noteq> [''/'', ''ds'', ''sub''])
          no_from_path no_update_from ''/ds/sub'' ds_browser))
       = [FromPathCalled [''/'', ''ds'', ''sub''], UpdateFromCalled ds_sub]
   \<and> inspect_changed_dir (\<lambda>q. False) no_from_path no_update_from ''/ds'' ds_browser
       = (ds_browser, Some NotImplementedError)"
proof -
  have p: "Path ''/ds/sub'' = [''/'', ''ds'', ''sub'']" "Path ''/ds'' = [''/'', ''ds'']"
    by (simp_all add: Path_def path_root_def)
  have g: "get_item_from_path ds_browser [''/'', ''ds'', ''sub''] = Inr ds_sub"
    by (simp add: get_item_from_path_def ds_browser_def new_browser_def relative_to_def
        ds_items_def ds_root_def ds_sub_def ds_file_def item_name_def path_name_def
        is_root_part_def new_item_def)
  have g0: "get_item_from_path ds_browser [''/'', ''ds''] = Inr ds_root"
    by (simp add: get_item_from_path_def ds_browser_def new_browser_def ds_root_def)
  have par: "parent (items ds_browser ds_sub) = Some ds_root"
      "parent (items ds_browser ds_root) = None"
    by (simp_all add: ds_browser_def ds_items_def new_item_def)
  have nm: "path_name (pathobj ds_sub) = ''sub''"
    by (simp add: ds_sub_def path_name_def)
  define s1 where "s1 = fst (removeChild ds_root ds_sub (items ds_browser))"
  have rm0: "snd (removeChild ds_root ds_sub (items ds_browser)) = None"
      "children (fst (removeChild ds_root ds_sub (items ds_browser)) ds_root) = [ds_file]"
    using nm
    by (simp_all add: removeChild_def qt_removeChild_def ds_browser_def ds_items_def
        new_item_def Let_def)
  have rm: "removeChild ds_root ds_sub (items ds_browser) = (s1, None)"
      "children (s1 ds_root) = [ds_file]"
    using rm0 by (simp_all add: s1_def prod_eq_iff)
  have lg: "log ds_browser = []"
    by (simp add: ds_browser_def new_browser_def)
  have sub: "snd (inspect_changed_dir (\<lambda>q. q \<noteq> [''/'', ''ds'', ''sub'']) no_from_path
          no_update_from ''/ds/sub'' ds_browser) = None
   \<and> children (items (fst (inspect_changed_dir (\<lambda>q. q \<noteq> [''/'', ''ds'', ''sub''])
          no_from_path no_update_from ''/ds/sub'' ds_browser)) ds_root) = [ds_file]
   \<and> log (fst (inspect_changed_dir (\<lambda>q. q \<noteq> [''/'', ''ds'', ''sub''])
          no_from_path no_update_from ''/ds/sub'' ds_browser))
       = [FromPathCalled [''/'', ''ds'', ''sub''], UpdateFromCalled ds_sub]"
    using p g par rm lg
    by (simp add: inspect_changed_dir_def Let_def no_from_path_def no_update_from_def)
  have root: "inspect_changed_dir (\<lambda>q. False) no_from_path no_update_from ''/ds'' ds_browser
       = (ds_browser, Some NotImplementedError)"
    using p g0 par by (simp add: inspect_changed_dir_def Let_def)
  from sub root show ?thesis by simp
qed

end
